theory Spec2Isabelle
  imports Complex_Main
begin

section \<open>Floating-point cells and tables\<close>

text \<open>
  The program works on pandas tables of float64 cells. A cell is modelled as a real number
  or one of the three non-finite values of the float format; \<open>NaN\<close> is what pandas shows
  as a missing value. Finite arithmetic is the exact arithmetic of the reals: rounding,
  overflow and the sign of zero are outside the model.
\<close>

datatype cell = NaN | NegInf | PosInf | Fin real

type_synonym column = "cell list"

text \<open>
  A table has a row index (the trading dates) and one labelled column per ticker; every
  column of a table has one cell per row of the index.
\<close>

record frame =
  index :: "string list"
  columns :: "(string \<times> column) list"

text \<open>
  The exceptions: \<open>ValueError\<close> and \<open>KeyError\<close> are raised inside the library calls of the
  program. \<open>InvalidConfiguration\<close> is the kind of error the specification names for a bad
  window or an empty ticker set; no line of the program raises it.
\<close>

datatype py_error = ValueError | KeyError | InvalidConfiguration

fun is_fin :: "cell \<Rightarrow> bool" where
  "is_fin (Fin x) = True"
| "is_fin c = False"

fun fin_vals :: "column \<Rightarrow> real list" where
  "fin_vals [] = []"
| "fin_vals (Fin x # cs) = x # fin_vals cs"
| "fin_vals (c # cs) = fin_vals cs"

definition map_columns :: "(column \<Rightarrow> column) \<Rightarrow> frame \<Rightarrow> frame" where
  "map_columns g f = f\<lparr>columns := map (\<lambda>(s, c). (s, g c)) (columns f)\<rparr>"

subsection \<open>The element-wise operations of line 31\<close>

text \<open>\<open>data.shift(1)\<close>: every column moves down by one row, the first row is filled with NaN.\<close>

definition shift1 :: "column \<Rightarrow> column" where
  "shift1 c = (if c = [] then [] else NaN # butlast c)"

definition frame_shift :: "frame \<Rightarrow> frame" where
  "frame_shift f = map_columns shift1 f"

text \<open>Float division: a NaN operand gives NaN, a finite value divided by zero is infinite.\<close>

fun cell_div :: "cell \<Rightarrow> cell \<Rightarrow> cell" where
  "cell_div (Fin x) (Fin y) =
     (if y \<noteq> 0 then Fin (x / y)
      else if 0 < x then PosInf else if x < 0 then NegInf else NaN)"
| "cell_div (Fin x) PosInf = Fin 0"
| "cell_div (Fin x) NegInf = Fin 0"
| "cell_div PosInf (Fin y) = (if 0 \<le> y then PosInf else NegInf)"
| "cell_div NegInf (Fin y) = (if 0 \<le> y then NegInf else PosInf)"
| "cell_div a b = NaN"

text \<open>
  \<open>a / b\<close> on two tables. Both operands of line 31 carry the index and the column labels of
  \<open>data\<close>, so the label alignment of pandas pairs the cells by position.
\<close>

definition frame_div :: "frame \<Rightarrow> frame \<Rightarrow> frame" where
  "frame_div a b =
     \<lparr>index = index a,
      columns = map2 (\<lambda>(s, c) (s', d). (s, map2 cell_div c d)) (columns a) (columns b)\<rparr>"

text \<open>\<open>np.log\<close>: no exception on a non-positive argument, the result is \<open>-inf\<close> or NaN.\<close>

fun cell_log :: "cell \<Rightarrow> cell" where
  "cell_log (Fin x) = (if 0 < x then Fin (ln x) else if x = 0 then NegInf else NaN)"
| "cell_log PosInf = PosInf"
| "cell_log c = NaN"

definition np_log :: "frame \<Rightarrow> frame" where
  "np_log f = map_columns (map cell_log) f"

subsection \<open>The rolling standard deviation of line 33\<close>

text \<open>
  \<open>.rolling(window=window)\<close> accepts an integer window of 0 or more and raises ValueError
  on a negative one; \<open>min_periods\<close> is left at its default, the window length.
\<close>

record rolling_obj =
  target :: frame
  win :: nat

definition rolling :: "frame \<Rightarrow> int \<Rightarrow> py_error + rolling_obj" where
  "rolling f window =
     (if window < 0 then Inl ValueError else Inr \<lparr>target = f, win = nat window\<rparr>)"

definition mean :: "real list \<Rightarrow> real" where
  "mean xs = sum_list xs / real (length xs)"

text \<open>The variance with one delta degree of freedom (\<open>ddof=1\<close>), the default of \<open>.std()\<close>.\<close>

definition var1 :: "real list \<Rightarrow> real" where
  "var1 xs = (\<Sum>x\<leftarrow>xs. (x - mean xs)\<^sup>2) / (real (length xs) - 1)"

text \<open>The rows of the window that ends at row \<open>t\<close>: rows \<open>max 0 (t - w + 1)\<close> to \<open>t\<close>.\<close>

definition window_at :: "nat \<Rightarrow> column \<Rightarrow> nat \<Rightarrow> column" where
  "window_at w c t = drop (t + 1 - w) (take (t + 1) c)"

text \<open>
  One cell of \<open>.std()\<close>: the non-finite cells of the window are left out, and the result is
  NaN unless at least \<open>min_periods\<close> (and more than \<open>ddof\<close>) observations remain.
\<close>

definition std_cell :: "nat \<Rightarrow> column \<Rightarrow> nat \<Rightarrow> cell" where
  "std_cell w c t =
     (let obs = fin_vals (window_at w c t); n = length obs
      in if max w 1 \<le> n \<and> 1 < n then Fin (sqrt (var1 obs)) else NaN)"

definition rolling_std_col :: "nat \<Rightarrow> column \<Rightarrow> column" where
  "rolling_std_col w c = map (std_cell w c) [0..<length c]"

definition std :: "rolling_obj \<Rightarrow> frame" where
  "std r = map_columns (rolling_std_col (win r)) (target r)"

text \<open>A table times a float scalar.\<close>

fun cell_mul :: "cell \<Rightarrow> real \<Rightarrow> cell" where
  "cell_mul (Fin x) k = Fin (x * k)"
| "cell_mul PosInf k = (if 0 < k then PosInf else if k < 0 then NegInf else NaN)"
| "cell_mul NegInf k = (if 0 < k then NegInf else if k < 0 then PosInf else NaN)"
| "cell_mul NaN k = NaN"

definition frame_mul :: "frame \<Rightarrow> real \<Rightarrow> frame" where
  "frame_mul f k = map_columns (map (\<lambda>c. cell_mul c k)) f"

subsection \<open>calculate_volatility\<close>

text \<open>
  Lines 26 to 34. The log returns are computed first; the only exception that can leave the
  function is the ValueError of \<open>rolling\<close>.
\<close>

definition calculate_volatility :: "frame \<Rightarrow> int \<Rightarrow> py_error + (frame \<times> frame)" where
  "calculate_volatility data window =
     (let log_returns = np_log (frame_div data (frame_shift data))
      in case rolling log_returns window of
           Inl e \<Rightarrow> Inl e
         | Inr r \<Rightarrow> Inr (frame_mul (std r) (sqrt 252), log_returns))"

subsection \<open>The same function on a store of table objects\<close>

text \<open>
  Python passes tables by reference. A world holds the table objects that exist, addressed
  by their position, and what the program has sent to the console, the network and the
  plotting library. Every pandas and numpy operation of lines 31 and 33 returns a new
  object.
\<close>

datatype event =
    Print string
  | PrintFetching "string list"
  | NetworkCall "string list" string string
  | Figure nat nat
  | Heatmap frame
  | Title string
  | Show

record world =
  objects :: "frame list"
  emitted :: "event list"

definition deref :: "world \<Rightarrow> nat \<Rightarrow> frame" where
  "deref w r = objects w ! r"

definition new_frame :: "frame \<Rightarrow> world \<Rightarrow> nat \<times> world" where
  "new_frame f w = (length (objects w), w\<lparr>objects := objects w @ [f]\<rparr>)"

definition calculate_volatility_st ::
  "nat \<Rightarrow> int \<Rightarrow> world \<Rightarrow> (py_error + nat \<times> nat) \<times> world" where
  "calculate_volatility_st data window w0 =
     (let (shifted, w1) = new_frame (frame_shift (deref w0 data)) w0;
          (ratio, w2) = new_frame (frame_div (deref w1 data) (deref w1 shifted)) w1;
          (log_returns, w3) = new_frame (np_log (deref w2 ratio)) w2
      in case rolling (deref w3 log_returns) window of
           Inl e \<Rightarrow> (Inl e, w3)
         | Inr r \<Rightarrow>
             (let (sd, w4) = new_frame (std r) w3;
                  (rolling_vol, w5) = new_frame (frame_mul (deref w4 sd) (sqrt 252)) w4
              in (Inr (rolling_vol, log_returns), w5)))"

subsection \<open>get_data\<close>



subsection \<open>plot_correlation\<close>







section \<open>Vocabulary of the properties\<close>

text \<open>Reading a table: the label and the cells of the \<open>i\<close>-th column.\<close>

definition col_name :: "frame \<Rightarrow> nat \<Rightarrow> string" where
  "col_name f i = fst (columns f ! i)"

definition col_cells :: "frame \<Rightarrow> nat \<Rightarrow> column" where
  "col_cells f i = snd (columns f ! i)"

text \<open>What the function does to one column.\<close>

definition log_return_col :: "column \<Rightarrow> column" where
  "log_return_col c = map cell_log (map2 cell_div c (shift1 c))"

definition vol_col :: "nat \<Rightarrow> column \<Rightarrow> column" where
  "vol_col w c = map (\<lambda>x. cell_mul x (sqrt 252)) (rolling_std_col w (log_return_col c))"

text \<open>
  The log return of a price column at row \<open>r\<close>, read off the prices alone. It exists from
  row 1 on, where the price and the price of the row before are finite, the earlier one is
  not zero and their ratio is positive; it is then the logarithm of the ratio.
\<close>

definition has_return :: "column \<Rightarrow> nat \<Rightarrow> bool" where
  "has_return ps r =
     (0 < r \<and> (case (ps ! r, ps ! (r - 1)) of
                  (Fin p, Fin q) \<Rightarrow> q \<noteq> 0 \<and> 0 < p / q
                | other \<Rightarrow> False))"

definition price_return :: "column \<Rightarrow> nat \<Rightarrow> real" where
  "price_return ps r =
     (case (ps ! r, ps ! (r - 1)) of (Fin p, Fin q) \<Rightarrow> ln (p / q) | other \<Rightarrow> 0)"

text \<open>The log returns of the \<open>w\<close> rows that end at row \<open>t\<close>.\<close>

definition trailing_returns :: "column \<Rightarrow> nat \<Rightarrow> nat \<Rightarrow> real list" where
  "trailing_returns ps w t = map (\<lambda>k. price_return ps (t + 1 - w + k)) [0..<w]"


text \<open>The rows of a column that hold a value (what \<open>count()\<close> counts).\<close>

definition valid_rows :: "column \<Rightarrow> nat" where
  "valid_rows c = length (filter (\<lambda>x. x \<noteq> NaN) c)"

text \<open>A price column without missing values: every cell is a positive finite price.\<close>

fun positive_cell :: "cell \<Rightarrow> bool" where
  "positive_cell (Fin p) = (0 < p)"
| "positive_cell c = False"

definition positive_col :: "column \<Rightarrow> bool" where
  "positive_col c = list_all positive_cell c"

text \<open>
  The textbook sample standard deviation and covariance of a series of \<open>n\<close> numbers, with
  the \<open>n - 1\<close> denominator, and the Pearson coefficient built from them.
\<close>

definition avg :: "real list \<Rightarrow> real" where
  "avg xs = (\<Sum>k = 0..<length xs. xs ! k) / real (length xs)"

definition sample_std :: "real list \<Rightarrow> real" where
  "sample_std xs = sqrt ((\<Sum>k = 0..<length xs. (xs ! k - avg xs)\<^sup>2) / (real (length xs) - 1))"




text \<open>
  The cumulative sum of a column as \<open>cumsum()\<close> computes it: a NaN cell stays NaN and is
  left out of the running sum. \<open>np.exp\<close> is applied cell by cell.
\<close>

fun cell_add :: "cell \<Rightarrow> cell \<Rightarrow> cell" where
  "cell_add (Fin x) (Fin y) = Fin (x + y)"
| "cell_add NaN b = NaN"
| "cell_add a NaN = NaN"
| "cell_add PosInf NegInf = NaN"
| "cell_add NegInf PosInf = NaN"
| "cell_add PosInf b = PosInf"
| "cell_add NegInf b = NegInf"
| "cell_add (Fin x) b = b"

fun cumsum_from :: "cell \<Rightarrow> column \<Rightarrow> column" where
  "cumsum_from a [] = []"
| "cumsum_from a (NaN # cs) = NaN # cumsum_from a cs"
| "cumsum_from a (c # cs) = cell_add a c # cumsum_from (cell_add a c) cs"

definition cumsum :: "column \<Rightarrow> column" where
  "cumsum c = cumsum_from (Fin 0) c"

fun cell_exp :: "cell \<Rightarrow> cell" where
  "cell_exp (Fin x) = Fin (exp x)"
| "cell_exp PosInf = PosInf"
| "cell_exp NegInf = Fin 0"
| "cell_exp NaN = NaN"

text \<open>
  What a call of calculate_volatility on the store hands back, read as values: the two
  tables behind the returned references, or the exception.
\<close>

definition returned :: "(py_error + nat \<times> nat) \<times> world \<Rightarrow> py_error + frame \<times> frame" where
  "returned out =
     (case fst out of
        Inl e \<Rightarrow> Inl e
      | Inr (vol, lr) \<Rightarrow> Inr (deref (snd out) vol, deref (snd out) lr))"

subsection \<open>Example tables\<close>

definition ex_prices :: frame where
  "ex_prices =
     \<lparr>index = [''2025-01-02'', ''2025-01-03'', ''2025-01-06'', ''2025-01-07''],
      columns = [(''THYAO.IS'', [Fin 1, Fin 2, Fin 4, Fin 8]),
                 (''GARAN.IS'', [Fin 100, Fin 100, Fin 100, Fin 100])]\<rparr>"

definition ex_empty :: frame where
  "ex_empty = \<lparr>index = [], columns = [(''THYAO.IS'', [])]\<rparr>"

definition day_label :: "nat \<Rightarrow> string" where
  "day_label k = ''day '' @ [char_of (48 + k div 10), char_of (48 + k mod 10)]"

definition ex_const30 :: frame where
  "ex_const30 =
     \<lparr>index = map day_label [0..<30], columns = [(''THYAO.IS'', replicate 30 (Fin 100))]\<rparr>"


definition ex_growth :: frame where
  "ex_growth =
     \<lparr>index = [''2025-01-02'', ''2025-01-03'', ''2025-01-06'', ''2025-01-07''],
      columns = [(''THYAO.IS'', [Fin 1, Fin 2, Fin 4, Fin 16]),
                 (''GARAN.IS'', [Fin 5, NaN, Fin 5, Fin 10])]\<rparr>"

definition ex_returns :: frame where
  "ex_returns =
     \<lparr>index = [''2025-01-02'', ''2025-01-03'', ''2025-01-06'', ''2025-01-07''],
      columns = [(''THYAO.IS'', [NaN, Fin (ln 2), Fin (ln 2), Fin (ln 2)]),
                 (''GARAN.IS'', [NaN, Fin 0, Fin 0, Fin 0])]\<rparr>"

definition ex_undefined :: frame where
  "ex_undefined =
     \<lparr>index = [''2025-01-02'', ''2025-01-03'', ''2025-01-06'', ''2025-01-07''],
      columns = [(''THYAO.IS'', [NaN, NaN, NaN, NaN]),
                 (''GARAN.IS'', [NaN, NaN, NaN, NaN])]\<rparr>"

definition ex_const30_returns :: frame where
  "ex_const30_returns =
     \<lparr>index = map day_label [0..<30],
      columns = [(''THYAO.IS'', NaN # replicate 29 (Fin 0))]\<rparr>"

definition ex_const30_vol :: frame where
  "ex_const30_vol =
     \<lparr>index = map day_label [0..<30],
      columns = [(''THYAO.IS'', replicate 21 NaN @ replicate 9 (Fin 0))]\<rparr>"


definition ex_world1 :: world where
  "ex_world1 = \<lparr>objects = [ex_prices], emitted = []\<rparr>"

definition ex_world2 :: world where
  "ex_world2 = \<lparr>objects = [ex_empty, ex_prices], emitted = [Print ''ready'']\<rparr>"

section \<open>Properties of the operations\<close>

subsection \<open>calculate_volatility in closed form\<close>

lemma map_columns_columns:
  "columns (map_columns g f) = map (\<lambda>(s, c). (s, g c)) (columns f)"
  by (simp add: map_columns_def)

lemma map_columns_index: "index (map_columns g f) = index f"
  by (simp add: map_columns_def)

lemma log_returns_columns:
  "columns (np_log (frame_div data (frame_shift data)))
     = map (\<lambda>(s, c). (s, log_return_col c)) (columns data)"
  by (simp add: np_log_def frame_div_def frame_shift_def map_columns_def log_return_col_def
      zip_map2 map_zip_map2 split_def zip_same_conv_map)

lemma log_returns_index:
  "index (np_log (frame_div data (frame_shift data))) = index data"
  by (simp add: np_log_def frame_div_def map_columns_def)

lemma calculate_volatility_Inr:
  assumes "0 \<le> window"
  shows "calculate_volatility data window =
     Inr (\<lparr>index = index data,
            columns = map (\<lambda>(s, c). (s, vol_col (nat window) c)) (columns data)\<rparr>,
          \<lparr>index = index data,
            columns = map (\<lambda>(s, c). (s, log_return_col c)) (columns data)\<rparr>)"
proof -
  let ?lr = "np_log (frame_div data (frame_shift data))"
  have lr: "?lr = \<lparr>index = index data,
            columns = map (\<lambda>(s, c). (s, log_return_col c)) (columns data)\<rparr>"
    using log_returns_columns [of data] log_returns_index [of data]
    by (cases ?lr) simp
  have "columns (frame_mul (std \<lparr>target = ?lr, win = nat window\<rparr>) (sqrt 252))
      = map (\<lambda>(s, c). (s, vol_col (nat window) c)) (columns data)"
    by (simp add: frame_mul_def std_def map_columns_columns log_returns_columns
        vol_col_def split_def)
  moreover have "index (frame_mul (std \<lparr>target = ?lr, win = nat window\<rparr>) (sqrt 252))
      = index data"
    by (simp add: frame_mul_def std_def map_columns_index log_returns_index)
  ultimately have "frame_mul (std \<lparr>target = ?lr, win = nat window\<rparr>) (sqrt 252)
      = \<lparr>index = index data,
         columns = map (\<lambda>(s, c). (s, vol_col (nat window) c)) (columns data)\<rparr>"
    by (cases "frame_mul (std \<lparr>target = ?lr, win = nat window\<rparr>) (sqrt 252)") simp
  with lr assms show ?thesis
    by (simp add: calculate_volatility_def rolling_def Let_def)
qed

lemma calculate_volatility_Inl:
  "window < 0 \<Longrightarrow> calculate_volatility data window = Inl ValueError"
  by (simp add: calculate_volatility_def rolling_def)

subsection \<open>Log returns and the rolling window\<close>

lemma length_shift1: "length (shift1 c) = length c"
  by (cases c rule: rev_cases) (simp_all add: shift1_def)

lemma shift1_nth: "t < length c \<Longrightarrow> shift1 c ! t = (if t = 0 then NaN else c ! (t - 1))"
  by (auto simp: shift1_def nth_Cons' nth_butlast)

lemma cell_div_NaN_right: "cell_div a NaN = NaN"
  by (cases a) simp_all

lemma length_log_return_col: "length (log_return_col c) = length c"
  by (simp add: log_return_col_def length_shift1)

lemma log_return_col_nth:
  "t < length c \<Longrightarrow>
   log_return_col c ! t = (if t = 0 then NaN else cell_log (cell_div (c ! t) (c ! (t - 1))))"
  by (simp add: log_return_col_def length_shift1 shift1_nth cell_div_NaN_right)

lemma fin_vals_length_le: "length (fin_vals c) \<le> length c"
  by (induction c rule: fin_vals.induct) simp_all

lemma fin_vals_full: "length (fin_vals c) = length c \<Longrightarrow> c = map Fin (fin_vals c)"
proof (induction c)
  case Nil
  then show ?case by simp
next
  case (Cons x cs)
  then show ?case
    using fin_vals_length_le [of cs] by (cases x) simp_all
qed

lemma length_window_at: "t < length c \<Longrightarrow> length (window_at w c t) = min w (t + 1)"
  by (auto simp: window_at_def)

lemma window_at_nth:
  "t < length c \<Longrightarrow> w \<le> t + 1 \<Longrightarrow> k < w \<Longrightarrow> window_at w c t ! k = c ! (t + 1 - w + k)"
  by (simp add: window_at_def)

lemma std_cell_Fin:
  assumes "t < length c" and "std_cell w c t = Fin v"
  shows "2 \<le> w \<and> w \<le> t + 1 \<and> length (fin_vals (window_at w c t)) = w
     \<and> window_at w c t = map Fin (fin_vals (window_at w c t))
     \<and> v = sqrt (var1 (fin_vals (window_at w c t)))"
proof -
  let ?win = "window_at w c t"
  let ?obs = "fin_vals ?win"
  from assms(2) have c: "max w 1 \<le> length ?obs" "1 < length ?obs" and v: "v = sqrt (var1 ?obs)"
    by (auto simp: std_cell_def Let_def split: if_splits)
  have le: "length ?obs \<le> min w (t + 1)"
    using fin_vals_length_le [of ?win] length_window_at [OF assms(1), of w] by simp
  with c have w: "length ?obs = w" "w \<le> t + 1" "2 \<le> w" by auto
  then have "length ?obs = length ?win"
    using length_window_at [OF assms(1), of w] by simp
  then have "?win = map Fin ?obs" by (rule fin_vals_full)
  with w v show ?thesis by simp
qed

lemma std_cell_not_inf: "std_cell w c t \<noteq> PosInf \<and> std_cell w c t \<noteq> NegInf"
  by (simp add: std_cell_def Let_def)

lemma length_vol_col: "length (vol_col w c) = length c"
  by (simp add: vol_col_def rolling_std_col_def length_log_return_col)

lemma vol_col_nth:
  "t < length c \<Longrightarrow> vol_col w c ! t = cell_mul (std_cell w (log_return_col c) t) (sqrt 252)"
  by (simp add: vol_col_def rolling_std_col_def length_log_return_col)

subsection \<open>The returned tables, column by column\<close>

lemma sum_list_map_nth: "sum_list (map f xs) = (\<Sum>k = 0..<length xs. f (xs ! k))"
  using sum_list_sum_nth [of "map f xs"] by simp

lemma avg_eq_mean: "avg xs = mean xs"
  by (simp add: avg_def mean_def sum_list_sum_nth)

lemma sample_std_eq: "sample_std xs = sqrt (var1 xs)"
  by (simp add: sample_std_def var1_def avg_eq_mean sum_list_map_nth)

lemma cv_result:
  assumes "calculate_volatility data window = Inr (vol, lr)"
  shows "0 \<le> window"
    and "vol = \<lparr>index = index data,
            columns = map (\<lambda>(s, c). (s, vol_col (nat window) c)) (columns data)\<rparr>"
    and "lr = \<lparr>index = index data,
            columns = map (\<lambda>(s, c). (s, log_return_col c)) (columns data)\<rparr>"
proof -
  show w: "0 \<le> window"
    using assms calculate_volatility_Inl [of window data] by (cases "window < 0") auto
  from calculate_volatility_Inr [OF w, of data] assms
  show "vol = \<lparr>index = index data,
            columns = map (\<lambda>(s, c). (s, vol_col (nat window) c)) (columns data)\<rparr>"
    and "lr = \<lparr>index = index data,
            columns = map (\<lambda>(s, c). (s, log_return_col c)) (columns data)\<rparr>"
    by simp_all
qed

lemma cv_columns:
  assumes "calculate_volatility data window = Inr (vol, lr)" and "i < length (columns data)"
  shows "col_cells lr i = log_return_col (col_cells data i)"
    and "col_cells vol i = vol_col (nat window) (col_cells data i)"
    and "col_name lr i = col_name data i"
    and "col_name vol i = col_name data i"
  using assms(2) cv_result(2,3) [OF assms(1)]
  by (simp_all add: col_cells_def col_name_def split_def)

lemma cv_shape:
  assumes "calculate_volatility data window = Inr (vol, lr)"
  shows "index lr = index data" and "index vol = index data"
    and "length (columns lr) = length (columns data)"
    and "length (columns vol) = length (columns data)"
  using cv_result(2,3) [OF assms] by simp_all

lemma log_return_col_0: "c \<noteq> [] \<Longrightarrow> log_return_col c ! 0 = NaN"
  by (simp add: log_return_col_nth)

lemma vol_cell_Fin:
  assumes t: "t < length c" and v: "vol_col w c ! t = Fin v"
  shows "2 \<le> w \<and> w \<le> t
     \<and> (\<exists>xs. length xs = w \<and> (\<forall>k<w. log_return_col c ! (t + 1 - w + k) = Fin (xs ! k))
           \<and> v = sample_std xs * sqrt 252)"
proof -
  let ?r = "log_return_col c"
  let ?obs = "fin_vals (window_at w ?r t)"
  have tr: "t < length ?r" using t by (simp add: length_log_return_col)
  from v t have m: "cell_mul (std_cell w ?r t) (sqrt 252) = Fin v"
    by (simp add: vol_col_nth)
  then obtain u where u: "std_cell w ?r t = Fin u" and vu: "v = u * sqrt 252"
    using std_cell_not_inf [of w ?r t] by (cases "std_cell w ?r t") auto
  from std_cell_Fin [OF tr u]
  have w2: "2 \<le> w" and wt: "w \<le> t + 1" and len: "length ?obs = w"
    and win: "window_at w ?r t = map Fin ?obs" and uv: "u = sqrt (var1 ?obs)"
    by simp_all
  have nth: "?r ! (t + 1 - w + k) = Fin (?obs ! k)" if "k < w" for k
  proof -
    have "window_at w ?r t ! k = ?r ! (t + 1 - w + k)"
      using window_at_nth [OF tr wt that] .
    moreover have "map Fin ?obs ! k = Fin (?obs ! k)"
      using that len by simp
    ultimately show ?thesis using win by simp
  qed
  have "w \<le> t"
  proof (rule ccontr)
    assume "\<not> w \<le> t"
    with wt have "t + 1 - w + 0 = 0" by simp
    moreover have "?r ! (t + 1 - w + 0) = Fin (?obs ! 0)"
      using nth [of 0] w2 by simp
    ultimately have "?r ! 0 = Fin (?obs ! 0)" by simp
    moreover have "?r ! 0 = NaN" using t by (intro log_return_col_0) auto
    ultimately show False by simp
  qed
  moreover have "v = sample_std ?obs * sqrt 252"
    using vu uv by (simp add: sample_std_eq)
  ultimately show ?thesis using w2 len nth by blast
qed

lemma vol_cell_not_inf: "t < length c \<Longrightarrow> vol_col w c ! t \<noteq> PosInf \<and> vol_col w c ! t \<noteq> NegInf"
  using std_cell_not_inf [of w "log_return_col c" t]
  by (cases "std_cell w (log_return_col c) t") (simp_all add: vol_col_nth)

lemma vol_cell_early: "t < length c \<Longrightarrow> t < w \<Longrightarrow> vol_col w c ! t = NaN"
  using vol_cell_Fin [of t c w] vol_cell_not_inf [of t c w]
  by (cases "vol_col w c ! t") auto

subsection \<open>Example columns and columns of constant prices\<close>

lemma ex_thyao_returns:
  "log_return_col [Fin 1, Fin 2, Fin 4, Fin 8] = [NaN, Fin (ln 2), Fin (ln 2), Fin (ln 2)]"
  by (simp add: log_return_col_def shift1_def)

lemma ex_garan_returns:
  "log_return_col [Fin 100, Fin 100, Fin 100, Fin 100] = [NaN, Fin 0, Fin 0, Fin 0]"
  by (simp add: log_return_col_def shift1_def)

lemma vol_col_small_window:
  assumes "w < 2" shows "vol_col w c = replicate (length c) NaN"
proof (rule nth_equalityI)
  show "length (vol_col w c) = length (replicate (length c) NaN)"
    by (simp add: length_vol_col)
next
  fix t assume "t < length (vol_col w c)"
  then have t: "t < length c" by (simp add: length_vol_col)
  have "vol_col w c ! t = NaN"
    using vol_cell_Fin [OF t, of w] vol_cell_not_inf [OF t, of w] assms
    by (cases "vol_col w c ! t") auto
  with t show "vol_col w c ! t = replicate (length c) NaN ! t" by simp
qed

lemma const_returns:
  assumes "0 < p"
  shows "log_return_col (replicate (Suc n) (Fin p)) = NaN # replicate n (Fin 0)"
proof (rule nth_equalityI)
  show "length (log_return_col (replicate (Suc n) (Fin p))) = length (NaN # replicate n (Fin 0))"
    by (simp add: length_log_return_col)
next
  fix t assume "t < length (log_return_col (replicate (Suc n) (Fin p)))"
  then have t: "t < Suc n" by (simp add: length_log_return_col)
  then have "log_return_col (replicate (Suc n) (Fin p)) ! t
      = (if t = 0 then NaN else Fin 0)"
    using assms by (simp add: log_return_col_nth del: replicate_Suc)
  also have "\<dots> = (NaN # replicate n (Fin 0)) ! t"
    using t by (cases t) simp_all
  finally show "log_return_col (replicate (Suc n) (Fin p)) ! t = (NaN # replicate n (Fin 0)) ! t" .
qed

lemma fin_vals_replicate: "fin_vals (replicate n (Fin x)) = replicate n x"
  by (induction n) simp_all

lemma var1_replicate: "var1 (replicate n x) = 0"
proof -
  have "mean (replicate n x) = x \<or> n = 0"
    by (simp add: mean_def sum_list_replicate)
  then show ?thesis
    by (auto simp: var1_def sum_list_replicate o_def map_replicate_const)
qed

lemma std_cell_zero_returns:
  assumes "2 \<le> w" and "t \<le> n"
  shows "std_cell w (NaN # replicate n (Fin 0)) t = (if t < w then NaN else Fin 0)"
proof -
  have tk: "take (t + 1) (NaN # replicate n (Fin 0)) = NaN # replicate t (Fin 0)"
    using assms(2) by (simp add: min_def)
  show ?thesis
  proof (cases "t < w")
    case True
    then have "window_at w (NaN # replicate n (Fin 0)) t = NaN # replicate t (Fin 0)"
      unfolding window_at_def tk by simp
    with True assms(1) show ?thesis
      by (simp add: std_cell_def fin_vals_replicate)
  next
    case False
    then obtain d where d: "t + 1 - w = Suc d" "t - d = w"
      using assms(1) by (cases "t + 1 - w") auto
    have "window_at w (NaN # replicate n (Fin 0)) t = replicate w (Fin 0)"
      unfolding window_at_def tk using d by simp
    with False assms(1) show ?thesis
      by (simp add: std_cell_def fin_vals_replicate var1_replicate)
  qed
qed

lemma const_vol:
  assumes "0 < p" and "2 \<le> w" and "w \<le> n"
  shows "vol_col w (replicate (Suc n) (Fin p)) = replicate w NaN @ replicate (Suc n - w) (Fin 0)"
proof (rule nth_equalityI)
  show "length (vol_col w (replicate (Suc n) (Fin p)))
      = length (replicate w NaN @ replicate (Suc n - w) (Fin 0))"
    using assms(3) by (simp add: length_vol_col)
next
  fix t assume "t < length (vol_col w (replicate (Suc n) (Fin p)))"
  then have t: "t < Suc n" by (simp add: length_vol_col)
  then have "vol_col w (replicate (Suc n) (Fin p)) ! t
      = cell_mul (std_cell w (NaN # replicate n (Fin 0)) t) (sqrt 252)"
    using const_returns [OF assms(1), of n] by (simp add: vol_col_nth del: replicate_Suc)
  also have "\<dots> = (if t < w then NaN else Fin 0)"
    using std_cell_zero_returns [OF assms(2), of t n] t by simp
  also have "\<dots> = (replicate w NaN @ replicate (Suc n - w) (Fin 0)) ! t"
    using t by (simp add: nth_append)
  finally show "vol_col w (replicate (Suc n) (Fin p)) ! t
      = (replicate w NaN @ replicate (Suc n - w) (Fin 0)) ! t" .
qed

subsection \<open>Columns without missing prices\<close>

lemma positive_col_conv:
  "positive_col c \<Longrightarrow> c = map Fin (fin_vals c) \<and> list_all (\<lambda>x. 0 < x) (fin_vals c)"
proof (induction c)
  case Nil
  then show ?case by simp
next
  case (Cons x cs)
  then show ?case by (cases x) (simp_all add: positive_col_def)
qed

lemma positive_col_nth:
  assumes "positive_col c" and "t < length c"
  shows "\<exists>p. c ! t = Fin p \<and> 0 < p"
proof -
  from assms have "positive_cell (c ! t)"
    by (simp add: positive_col_def list_all_length)
  then show ?thesis by (cases "c ! t") simp_all
qed

lemma positive_returns:
  assumes "ps \<noteq> []" and "list_all (\<lambda>x. 0 < x) ps"
  shows "log_return_col (map Fin ps)
     = NaN # map (\<lambda>j. Fin (ln (ps ! Suc j / ps ! j))) [0..<length ps - 1]"
proof (rule nth_equalityI)
  show "length (log_return_col (map Fin ps))
      = length (NaN # map (\<lambda>j. Fin (ln (ps ! Suc j / ps ! j))) [0..<length ps - 1])"
    using assms(1) by (simp add: length_log_return_col)
next
  fix t assume "t < length (log_return_col (map Fin ps))"
  then have t: "t < length ps" by (simp add: length_log_return_col)
  show "log_return_col (map Fin ps) ! t
      = (NaN # map (\<lambda>j. Fin (ln (ps ! Suc j / ps ! j))) [0..<length ps - 1]) ! t"
  proof (cases t)
    case 0
    with t show ?thesis by (simp add: log_return_col_nth)
  next
    case (Suc j)
    with t assms(2) have "0 < ps ! j" "0 < ps ! Suc j"
      by (simp_all add: list_all_length)
    moreover from t Suc have "j < length ps - 1" by simp
    ultimately show ?thesis using t Suc by (simp add: log_return_col_nth)
  qed
qed

lemma valid_rows_map_Fin: "valid_rows (map Fin xs) = length xs"
  by (induction xs) (simp_all add: valid_rows_def)

lemma valid_rows_NaN_Cons: "valid_rows (NaN # c) = valid_rows c"
  by (simp add: valid_rows_def)

lemma valid_rows_positive_returns:
  assumes "positive_col c" and "c \<noteq> []"
  shows "valid_rows (log_return_col c) + 1 = valid_rows c"
proof -
  obtain ps where c: "c = map Fin ps" and pos: "list_all (\<lambda>x. 0 < x) ps"
    using positive_col_conv [OF assms(1)] by blast
  from c assms(2) have ne: "ps \<noteq> []" by auto
  have "log_return_col c = NaN # map Fin (map (\<lambda>j. ln (ps ! Suc j / ps ! j)) [0..<length ps - 1])"
    unfolding c using positive_returns [OF ne pos] by (simp add: o_def)
  then have "valid_rows (log_return_col c) = length ps - 1"
    by (simp only: valid_rows_NaN_Cons valid_rows_map_Fin) simp
  moreover have "valid_rows c = length ps"
    unfolding c by (rule valid_rows_map_Fin)
  ultimately show ?thesis using ne by (cases ps) simp_all
qed

lemma fin_vals_all_fin:
  "(\<And>k. k < length xs \<Longrightarrow> is_fin (xs ! k)) \<Longrightarrow> length (fin_vals xs) = length xs"
proof (induction xs)
  case Nil
  then show ?case by simp
next
  case (Cons x xs)
  from Cons.prems [of 0] have x: "is_fin x" by simp
  have "length (fin_vals xs) = length xs"
  proof (rule Cons.IH)
    fix k assume "k < length xs"
    then show "is_fin (xs ! k)" using Cons.prems [of "Suc k"] by simp
  qed
  with x show ?case by (cases x) simp_all
qed

lemma var1_nonneg: "2 \<le> length xs \<Longrightarrow> 0 \<le> var1 xs"
  by (auto simp: var1_def intro!: divide_nonneg_nonneg sum_list_nonneg)

lemma positive_returns_fin:
  assumes "positive_col c" and "1 \<le> t" and "t < length c"
  shows "is_fin (log_return_col c ! t)"
proof -
  obtain p where p: "c ! t = Fin p" "0 < p"
    using positive_col_nth [OF assms(1,3)] by blast
  have "t - 1 < length c" using assms(3) by simp
  from positive_col_nth [OF assms(1) this]
  obtain q where q: "c ! (t - 1) = Fin q" "0 < q" by blast
  from assms(2,3) p q show ?thesis by (simp add: log_return_col_nth)
qed

lemma vol_cell_defined:
  assumes pos: "positive_col c" and w: "2 \<le> w" "w \<le> t" and t: "t < length c"
  shows "\<exists>v. vol_col w c ! t = Fin v \<and> 0 \<le> v"
proof -
  let ?r = "log_return_col c"
  let ?win = "window_at w ?r t"
  have tr: "t < length ?r" using t by (simp add: length_log_return_col)
  have lw: "length ?win = w"
    using length_window_at [OF tr, of w] w by simp
  have "is_fin (?win ! k)" if "k < length ?win" for k
  proof -
    from that lw have k: "k < w" by simp
    have "?win ! k = ?r ! (t + 1 - w + k)"
      using window_at_nth [OF tr _ k] w by simp
    moreover have "is_fin (?r ! (t + 1 - w + k))"
      using positive_returns_fin [OF pos, of "t + 1 - w + k"] w k t by simp
    ultimately show ?thesis by simp
  qed
  then have "length (fin_vals ?win) = length ?win" by (rule fin_vals_all_fin)
  with lw have n: "length (fin_vals ?win) = w" by simp
  with w have "std_cell w ?r t = Fin (sqrt (var1 (fin_vals ?win)))"
    by (simp add: std_cell_def Let_def)
  then have "vol_col w c ! t = Fin (sqrt (var1 (fin_vals ?win)) * sqrt 252)"
    using t by (simp add: vol_col_nth)
  moreover have "0 \<le> sqrt (var1 (fin_vals ?win)) * sqrt 252"
    using var1_nonneg [of "fin_vals ?win"] n w by simp
  ultimately show ?thesis by blast
qed

lemma vol_cell_nonneg:
  assumes "t < length c" and "vol_col w c ! t = Fin v"
  shows "0 \<le> v"
proof -
  from vol_cell_Fin [OF assms] obtain xs where "2 \<le> w" "length xs = w"
    and v: "v = sample_std xs * sqrt 252" by blast
  then have "0 \<le> sqrt (var1 xs)" using var1_nonneg [of xs] by simp
  with v show ?thesis by (simp add: sample_std_eq)
qed

subsection \<open>Cumulative sums of log returns\<close>

lemma length_cumsum_from: "length (cumsum_from a c) = length c"
  by (induction a c rule: cumsum_from.induct) simp_all

lemma cumsum_from_Fin_nth:
  "k < length ys \<Longrightarrow>
   cumsum_from (Fin a) (map Fin ys) ! k = Fin (a + sum_list (take (Suc k) ys))"
proof (induction ys arbitrary: a k)
  case Nil
  then show ?case by simp
next
  case (Cons y ys)
  show ?case
  proof (cases k)
    case 0
    then show ?thesis by simp
  next
    case (Suc j)
    with Cons.prems have "j < length ys" by simp
    from Cons.IH [OF this, of "a + y"] Suc show ?thesis by (simp add: add.assoc)
  qed
qed

lemma telescope:
  fixes P :: "nat \<Rightarrow> real"
  assumes "\<And>j. j \<le> k \<Longrightarrow> 0 < P j"
  shows "(\<Sum>j = 0..<k. ln (P (Suc j) / P j)) = ln (P k / P 0)"
  using assms
proof (induction k)
  case 0
  then show ?case by simp
next
  case (Suc k)
  have pk: "0 < P k" "0 < P (Suc k)" "0 < P 0" using Suc.prems by simp_all
  have "(\<Sum>j = 0..<Suc k. ln (P (Suc j) / P j)) = ln (P k / P 0) + ln (P (Suc k) / P k)"
    using Suc.IH Suc.prems by simp
  also have "\<dots> = ln (P (Suc k) / P 0)"
    using pk by (simp add: ln_div)
  finally show ?case .
qed

lemma exp_cumsum_positive:
  assumes pos: "positive_col c" and t: "1 \<le> t" "t < length c"
  shows "\<exists>p p0. c ! t = Fin p \<and> c ! 0 = Fin p0 \<and> 0 < p0
     \<and> map cell_exp (cumsum (log_return_col c)) ! t = Fin (p / p0)"
proof -
  obtain ps where c: "c = map Fin ps" and all: "list_all (\<lambda>x. 0 < x) ps"
    using positive_col_conv [OF pos] by blast
  define ys where "ys = map (\<lambda>j. ln (ps ! Suc j / ps ! j)) [0..<length ps - 1]"
  have len: "length ps = length c" by (simp add: c)
  with t have ne: "ps \<noteq> []" by auto
  have pj: "0 < ps ! j" if "j < length ps" for j
    using all that by (simp add: list_all_length)
  have r: "log_return_col c = NaN # map Fin ys"
    unfolding c ys_def using positive_returns [OF ne all] by (simp add: o_def)
  obtain k where k: "t = Suc k" using t by (cases t) simp_all
  with t len have kl: "k < length ys" by (simp add: ys_def)
  have "cumsum (log_return_col c) ! t = cumsum_from (Fin 0) (map Fin ys) ! k"
    by (simp add: cumsum_def r k)
  also have "\<dots> = Fin (sum_list (take (Suc k) ys))"
    using cumsum_from_Fin_nth [OF kl, of 0] by simp
  also have "take (Suc k) ys = map (\<lambda>j. ln (ps ! Suc j / ps ! j)) [0..<Suc k]"
    using kl unfolding ys_def by (simp add: take_map del: upt_Suc)
  also have "sum_list (map (\<lambda>j. ln (ps ! Suc j / ps ! j)) [0..<Suc k])
      = (\<Sum>j = 0..<Suc k. ln (ps ! Suc j / ps ! j))"
    by (simp add: interv_sum_list_conv_sum_set_nat del: upt_Suc)
  also have "\<dots> = ln (ps ! Suc k / ps ! 0)"
  proof (rule telescope)
    fix j assume "j \<le> Suc k"
    then have "j < length ps" using t k len by simp
    then show "0 < ps ! j" by (rule pj)
  qed
  finally have cs: "cumsum (log_return_col c) ! t = Fin (ln (ps ! t / ps ! 0))"
    using k by simp
  have tl: "t < length ps" and zl: "0 < length ps" using t len by linarith+
  have p0: "0 < ps ! 0" and pt: "0 < ps ! t" using pj [OF zl] pj [OF tl] by simp_all
  then have "0 < ps ! t / ps ! 0" by simp
  then have "cell_exp (cumsum (log_return_col c) ! t) = Fin (ps ! t / ps ! 0)"
    using cs by simp
  moreover have "t < length (cumsum (log_return_col c))"
    using t by (simp add: cumsum_def length_cumsum_from length_log_return_col)
  ultimately have e: "map cell_exp (cumsum (log_return_col c)) ! t = Fin (ps ! t / ps ! 0)"
    by simp
  have "c ! t = Fin (ps ! t)" "c ! 0 = Fin (ps ! 0)"
    unfolding c using tl zl by simp_all
  with e p0 show ?thesis by blast
qed

lemma cumsum_returns_row0:
  assumes "c \<noteq> []"
  shows "map cell_exp (cumsum (log_return_col c)) ! 0 = NaN"
proof -
  have "log_return_col c \<noteq> []" using assms length_log_return_col [of c] by auto
  then obtain x xs where r: "log_return_col c = x # xs" by (cases "log_return_col c") auto
  with log_return_col_0 [OF assms] have "x = NaN" by simp
  with r show ?thesis by (simp add: cumsum_def)
qed

subsection \<open>The correlation matrix\<close>




















subsection \<open>The function on the store\<close>

lemma calculate_volatility_st_eq:
  assumes "data < length (objects w)"
  shows "calculate_volatility_st data window w =
     (let d = deref w data; sh = frame_shift d; ra = frame_div d sh; lr = np_log ra;
          sd = std \<lparr>target = lr, win = nat window\<rparr>
      in if window < 0
         then (Inl ValueError, w\<lparr>objects := objects w @ [sh, ra, lr]\<rparr>)
         else (Inr (length (objects w) + 4, length (objects w) + 2),
               w\<lparr>objects := objects w @ [sh, ra, lr, sd, frame_mul sd (sqrt 252)]\<rparr>))"
  using assms
  by (simp add: calculate_volatility_st_def new_frame_def deref_def rolling_def Let_def
      nth_append)

lemma calculate_volatility_st_objects:
  assumes "data < length (objects w)"
  shows "\<exists>new. objects (snd (calculate_volatility_st data window w)) = objects w @ new
     \<and> length new \<le> 5"
  unfolding calculate_volatility_st_eq [OF assms] by (simp add: Let_def)

lemma calculate_volatility_st_emitted:
  assumes "data < length (objects w)"
  shows "emitted (snd (calculate_volatility_st data window w)) = emitted w"
  unfolding calculate_volatility_st_eq [OF assms] by (simp add: Let_def)

lemma calculate_volatility_st_returned:
  assumes "data < length (objects w)"
  shows "returned (calculate_volatility_st data window w)
     = calculate_volatility (deref w data) window"
  unfolding calculate_volatility_st_eq [OF assms]
  by (simp add: returned_def calculate_volatility_def rolling_def Let_def deref_def nth_append)

lemma calculate_volatility_st_refs:
  assumes "data < length (objects w)"
    and "fst (calculate_volatility_st data window w) = Inr (vol, lr)"
  shows "length (objects w) \<le> vol \<and> length (objects w) \<le> lr \<and> vol \<noteq> lr
     \<and> vol < length (objects (snd (calculate_volatility_st data window w)))
     \<and> lr < length (objects (snd (calculate_volatility_st data window w)))"
  using assms(2) unfolding calculate_volatility_st_eq [OF assms(1)]
  by (auto simp: Let_def split: if_splits)

subsection \<open>Volatility read off the prices\<close>

lemma log_return_has:
  assumes "r < length ps" and "has_return ps r"
  shows "log_return_col ps ! r = Fin (price_return ps r)"
proof -
  from assms(2) have r: "0 < r" by (simp add: has_return_def)
  from assms(2) obtain p q where pq: "ps ! r = Fin p" "ps ! (r - 1) = Fin q" "q \<noteq> 0" "0 < p / q"
    by (cases "ps ! r"; cases "ps ! (r - 1)") (simp_all add: has_return_def)
  with assms(1) r show ?thesis
    by (simp add: log_return_col_nth price_return_def)
qed

lemma log_return_Fin_has:
  assumes "r < length ps" and "log_return_col ps ! r = Fin x"
  shows "has_return ps r"
proof -
  from assms have r: "0 < r" by (cases "r = 0") (simp_all add: log_return_col_nth)
  with assms have "cell_log (cell_div (ps ! r) (ps ! (r - 1))) = Fin x"
    by (simp add: log_return_col_nth)
  then have "case (ps ! r, ps ! (r - 1)) of (Fin p, Fin q) \<Rightarrow> q \<noteq> 0 \<and> 0 < p / q | other \<Rightarrow> False"
    by (cases "ps ! r"; cases "ps ! (r - 1)") (auto split: if_splits)
  with r show ?thesis by (simp add: has_return_def)
qed

lemma window_at_map:
  assumes "t < length c" and "w \<le> t + 1"
  shows "window_at w c t = map (\<lambda>k. c ! (t + 1 - w + k)) [0..<w]"
proof (rule nth_equalityI)
  show "length (window_at w c t) = length (map (\<lambda>k. c ! (t + 1 - w + k)) [0..<w])"
    using length_window_at [OF assms(1), of w] assms(2) by simp
next
  fix k assume "k < length (window_at w c t)"
  then have k: "k < w" using length_window_at [OF assms(1), of w] assms(2) by simp
  then show "window_at w c t ! k = map (\<lambda>k. c ! (t + 1 - w + k)) [0..<w] ! k"
    using window_at_nth [OF assms k] by simp
qed

lemma fin_vals_map_Fin: "fin_vals (map (\<lambda>k. Fin (f k)) ks) = map f ks"
  by (induction ks) simp_all

lemma vol_cell_value:
  assumes t: "t < length ps" and w: "2 \<le> w" "w \<le> t"
    and has: "\<And>k. k < w \<Longrightarrow> has_return ps (t + 1 - w + k)"
  shows "vol_col w ps ! t = Fin (sample_std (trailing_returns ps w t) * sqrt 252)"
proof -
  let ?r = "log_return_col ps"
  have tr: "t < length ?r" using t by (simp add: length_log_return_col)
  have "window_at w ?r t = map (\<lambda>k. ?r ! (t + 1 - w + k)) [0..<w]"
    using tr w(2) by (intro window_at_map) simp_all
  also have "\<dots> = map (\<lambda>k. Fin (price_return ps (t + 1 - w + k))) [0..<w]"
  proof (rule map_cong [OF refl])
    fix k assume "k \<in> set [0..<w]"
    then have k: "k < w" by simp
    then have "t + 1 - w + k < length ps" using t w(2) by simp
    then show "?r ! (t + 1 - w + k) = Fin (price_return ps (t + 1 - w + k))"
      using has [OF k] by (rule log_return_has)
  qed
  finally have obs: "fin_vals (window_at w ?r t) = trailing_returns ps w t"
    by (simp add: fin_vals_map_Fin trailing_returns_def)
  have "length (trailing_returns ps w t) = w" by (simp add: trailing_returns_def)
  with w(1) have "std_cell w ?r t = Fin (sqrt (var1 (trailing_returns ps w t)))"
    by (simp add: std_cell_def obs Let_def)
  then show ?thesis using t by (simp add: vol_col_nth sample_std_eq)
qed

lemma vol_cell_Fin_has:
  assumes t: "t < length ps" and v: "vol_col w ps ! t = Fin v" and k: "k < w"
  shows "has_return ps (t + 1 - w + k)"
proof -
  from vol_cell_Fin [OF t v] obtain xs where w: "w \<le> t"
    and xs: "\<forall>k<w. log_return_col ps ! (t + 1 - w + k) = Fin (xs ! k)" by blast
  from xs k have "log_return_col ps ! (t + 1 - w + k) = Fin (xs ! k)" by blast
  moreover have "t + 1 - w + k < length ps" using t w k by simp
  ultimately show ?thesis by (intro log_return_Fin_has)
qed

lemma vol_cell_char:
  assumes t: "t < length ps"
  shows "vol_col w ps ! t =
     (if 2 \<le> w \<and> w \<le> t \<and> (\<forall>k<w. has_return ps (t + 1 - w + k))
      then Fin (sample_std (trailing_returns ps w t) * sqrt 252) else NaN)"
proof (cases "2 \<le> w \<and> w \<le> t \<and> (\<forall>k<w. has_return ps (t + 1 - w + k))")
  case True
  then have w: "2 \<le> w" "w \<le> t" and has: "\<And>k. k < w \<Longrightarrow> has_return ps (t + 1 - w + k)"
    by blast+
  have "vol_col w ps ! t = Fin (sample_std (trailing_returns ps w t) * sqrt 252)"
    using t w has by (rule vol_cell_value)
  then show ?thesis unfolding if_P [OF True] .
next
  case False
  have "vol_col w ps ! t = NaN"
  proof (cases "vol_col w ps ! t")
    case (Fin v)
    from vol_cell_Fin [OF t Fin] have "2 \<le> w" "w \<le> t" by simp_all
    moreover have "\<forall>k<w. has_return ps (t + 1 - w + k)"
      using vol_cell_Fin_has [OF t Fin] by blast
    ultimately show ?thesis using False by blast
  qed (use vol_cell_not_inf [OF t, of w] in simp_all)
  then show ?thesis unfolding if_not_P [OF False] .
qed

lemma vol_col_large_window:
  assumes "length c \<le> w" shows "vol_col w c = replicate (length c) NaN"
proof (rule nth_equalityI)
  show "length (vol_col w c) = length (replicate (length c) NaN)"
    by (simp add: length_vol_col)
next
  fix t assume "t < length (vol_col w c)"
  then have t: "t < length c" by (simp add: length_vol_col)
  with assms have "vol_col w c ! t = NaN" by (intro vol_cell_early) simp_all
  with t show "vol_col w c ! t = replicate (length c) NaN ! t" by simp
qed

lemma sample_std_pair: "sample_std [a, b] = \<bar>b - a\<bar> / sqrt 2"
proof -
  have av: "avg [a, b] = (a + b) / 2"
    by (simp add: avg_def numeral_2_eq_2)
  have "(\<Sum>k = 0..<length [a, b]. ([a, b] ! k - avg [a, b])\<^sup>2)
      = (a - (a + b) / 2)\<^sup>2 + (b - (a + b) / 2)\<^sup>2"
    unfolding av by (simp add: numeral_2_eq_2)
  also have "\<dots> = (b - a)\<^sup>2 / 2"
    by (simp add: power2_eq_square field_simps)
  finally have "sample_std [a, b] = sqrt ((b - a)\<^sup>2 / 2)"
    by (simp add: sample_std_def)
  then show ?thesis by (simp add: real_sqrt_divide)
qed

lemma ex_growth_vol: "sample_std [ln 2, ln 4] * sqrt 252 = ln 2 * sqrt 126"
proof -
  have "ln ((2::real) ^ 2) = real 2 * ln 2" by (rule ln_realpow)
  moreover have "(2::real) ^ 2 = 4" by simp
  ultimately have l4: "ln (4::real) = 2 * ln 2" by simp
  have "sqrt 252 = sqrt 126 * sqrt 2"
    using real_sqrt_mult [of 126 2] by simp
  then show ?thesis by (simp add: sample_std_pair l4)
qed

section \<open>The claims about calculate_volatility\<close>

text \<open>
  Claim C1. Whenever calculate_volatility returns, the volatility table has the labels and
  the row count of the price table, and every cell of it is fixed by the prices: the cell
  at row \<open>t\<close> of a column is defined exactly when \<open>window \<ge> 2\<close>, \<open>t \<ge> window\<close> and each of the
  \<open>window\<close> rows \<open>t - window + 1\<close> to \<open>t\<close> has a log return; it is then the sample standard
  deviation (\<open>n - 1\<close> denominator) of these log returns times \<open>\<surd>252\<close>, and NaN otherwise. In
  particular the first \<open>window - 1\<close> rows are NaN. The log returns in question are the cells
  of the returned log-return table.
\<close>

theorem volatility_cells:
  assumes "calculate_volatility data window = Inr (vol, lr)"
    and "i < length (columns data)" and "t < length (col_cells data i)"
  shows "col_name vol i = col_name data i
    \<and> length (col_cells vol i) = length (col_cells data i)
    \<and> (int t < window - 1 \<longrightarrow> col_cells vol i ! t = NaN)
    \<and> col_cells vol i ! t =
        (if 2 \<le> window \<and> nat window \<le> t
            \<and> (\<forall>k<nat window. has_return (col_cells data i) (t + 1 - nat window + k))
         then Fin (sample_std (trailing_returns (col_cells data i) (nat window) t) * sqrt 252)
         else NaN)
    \<and> (\<forall>r<length (col_cells data i). has_return (col_cells data i) r \<longrightarrow>
          col_cells lr i ! r = Fin (price_return (col_cells data i) r))
    \<and> (\<forall>v. col_cells vol i ! t = Fin v \<longrightarrow>
          (\<exists>xs. length xs = nat window \<and> nat window \<le> t
             \<and> (\<forall>k<nat window. col_cells lr i ! (t + 1 - nat window + k) = Fin (xs ! k))
             \<and> v = sample_std xs * sqrt 252))"
proof -
  let ?c = "col_cells data i"
  have lr: "col_cells lr i = log_return_col ?c"
    and vol: "col_cells vol i = vol_col (nat window) ?c"
    and nm: "col_name vol i = col_name data i"
    using cv_columns [OF assms(1,2)] by simp_all
  have w0: "0 \<le> window" using cv_result(1) [OF assms(1)] .
  have early: "int t < window - 1 \<longrightarrow> vol_col (nat window) ?c ! t = NaN"
    using vol_cell_early [OF assms(3), of "nat window"] by auto
  have w2: "(2 \<le> nat window) = (2 \<le> window)" using w0 by auto
  have val: "vol_col (nat window) ?c ! t =
        (if 2 \<le> window \<and> nat window \<le> t
            \<and> (\<forall>k<nat window. has_return ?c (t + 1 - nat window + k))
         then Fin (sample_std (trailing_returns ?c (nat window) t) * sqrt 252)
         else NaN)"
    using vol_cell_char [OF assms(3), of "nat window"] unfolding w2 .
  have ret: "\<forall>r<length ?c. has_return ?c r \<longrightarrow>
          log_return_col ?c ! r = Fin (price_return ?c r)"
    using log_return_has by blast
  have fin: "\<forall>v. vol_col (nat window) ?c ! t = Fin v \<longrightarrow>
          (\<exists>xs. length xs = nat window \<and> nat window \<le> t
             \<and> (\<forall>k<nat window. log_return_col ?c ! (t + 1 - nat window + k) = Fin (xs ! k))
             \<and> v = sample_std xs * sqrt 252)"
    using vol_cell_Fin [OF assms(3), of "nat window"] by blast
  have len: "length (vol_col (nat window) ?c) = length ?c" by (rule length_vol_col)
  show ?thesis
    unfolding lr vol using nm len early val ret fin by blast
qed

theorem volatility_cells_witness:
  "\<exists>vol lr. calculate_volatility ex_growth 2 = Inr (vol, lr)
     \<and> col_name vol 0 = ''THYAO.IS''
     \<and> length (col_cells vol 0) = 4
     \<and> col_cells vol 0 ! 0 = NaN
     \<and> col_cells vol 0 ! 3 = Fin (ln 2 * sqrt 126)
     \<and> col_cells vol 1 ! 3 = NaN
     \<and> col_cells lr 0 ! 3 = Fin (ln 4)"
proof -
  obtain vol lr where cv: "calculate_volatility ex_growth 2 = Inr (vol, lr)"
    using calculate_volatility_Inr [of 2 ex_growth] by simp
  let ?a = "[Fin 1, Fin 2, Fin 4, Fin 16]" and ?b = "[Fin 5, NaN, Fin 5, Fin 10]"
  have i0: "0 < length (columns ex_growth)" and i1: "1 < length (columns ex_growth)"
    by (simp_all add: ex_growth_def)
  have ca: "col_cells ex_growth 0 = ?a" and cb: "col_cells ex_growth 1 = ?b"
    and na: "col_name ex_growth 0 = ''THYAO.IS''"
    by (simp_all add: ex_growth_def col_cells_def col_name_def)
  have t0: "0 < length (col_cells ex_growth 0)" and t3: "3 < length (col_cells ex_growth 0)"
    and t3b: "3 < length (col_cells ex_growth 1)"
    unfolding ca cb by simp_all
  have ha: "has_return ?a 2" "has_return ?a 3" and hb: "\<not> has_return ?b 2"
    by (simp_all add: has_return_def)
  have alla: "\<forall>k<2. has_return ?a (3 + 1 - 2 + k)"
  proof (intro allI impI)
    fix k :: nat assume "k < 2"
    then consider "k = 0" | "k = 1" by linarith
    then show "has_return ?a (3 + 1 - 2 + k)"
      by cases (use ha in simp_all)
  qed
  have allb: "\<not> (\<forall>k<2. has_return ?b (3 + 1 - 2 + k))"
  proof
    assume "\<forall>k<2. has_return ?b (3 + 1 - 2 + k)"
    moreover have "(0::nat) < 2" by simp
    ultimately have "has_return ?b (3 + 1 - 2 + 0)" by blast
    with hb show False by simp
  qed
  have tr: "trailing_returns ?a 2 3 = [ln 2, ln 4]"
    by (simp add: trailing_returns_def price_return_def numeral_2_eq_2)
  have pr: "price_return ?a 3 = ln 4" by (simp add: price_return_def)
  note a0 = volatility_cells [OF cv i0 t0]
  note a3 = volatility_cells [OF cv i0 t3]
  note b3 = volatility_cells [OF cv i1 t3b]
  from a0 have "col_name vol 0 = ''THYAO.IS''" "length (col_cells vol 0) = 4"
    "col_cells vol 0 ! 0 = NaN"
    by (simp_all add: ca na)
  moreover from a3 have "col_cells vol 0 ! 3 = Fin (ln 2 * sqrt 126)"
    unfolding ca using alla by (simp add: tr ex_growth_vol)
  moreover from b3 have "col_cells vol 1 ! 3 = NaN"
    unfolding cb using allb by simp
  moreover from a3 have "col_cells lr 0 ! 3 = Fin (ln 4)"
    unfolding ca using ha(2) pr by simp
  ultimately show ?thesis using cv by blast
qed

text \<open>
  Claim C2. Whenever calculate_volatility returns, each column of the log-return table has
  the label and the row count of its price column; the cell at row 0 and at every row \<open>t\<close>
  where the price at \<open>t\<close> or at \<open>t - 1\<close> is missing is NaN; and at every row \<open>t \<ge> 1\<close> where both
  prices are present (and positive, as prices are) the cell is \<open>ln (price t / price (t - 1))\<close>.
\<close>

theorem log_return_cells:
  assumes "calculate_volatility data window = Inr (vol, lr)"
    and "i < length (columns data)" and "t < length (col_cells data i)"
  shows "col_name lr i = col_name data i
    \<and> length (col_cells lr i) = length (col_cells data i)
    \<and> (t = 0 \<or> col_cells data i ! t = NaN \<or> col_cells data i ! (t - 1) = NaN
         \<longrightarrow> col_cells lr i ! t = NaN)
    \<and> (\<forall>p q. 1 \<le> t \<and> col_cells data i ! t = Fin p \<and> col_cells data i ! (t - 1) = Fin q
            \<and> 0 < p \<and> 0 < q
         \<longrightarrow> col_cells lr i ! t = Fin (ln (p / q)))"
  using assms(3) cv_columns(1,3) [OF assms(1,2)]
  by (auto simp: length_log_return_col log_return_col_nth cell_div_NaN_right)

theorem log_return_cells_witness:
  "\<exists>vol lr. calculate_volatility ex_prices 21 = Inr (vol, lr)
     \<and> col_name lr 0 = ''THYAO.IS''
     \<and> col_cells lr 0 ! 0 = NaN
     \<and> col_cells lr 0 ! 2 = Fin (ln 2)"
proof -
  obtain vol lr where cv: "calculate_volatility ex_prices 21 = Inr (vol, lr)"
    using calculate_volatility_Inr [of 21 ex_prices] by simp
  have i: "0 < length (columns ex_prices)" by (simp add: ex_prices_def)
  have t0: "0 < length (col_cells ex_prices 0)" and t2: "2 < length (col_cells ex_prices 0)"
    by (simp_all add: ex_prices_def col_cells_def)
  from log_return_cells [OF cv i t0] log_return_cells [OF cv i t2]
  have "col_name lr 0 = ''THYAO.IS''" "col_cells lr 0 ! 0 = NaN" "col_cells lr 0 ! 2 = Fin (ln 2)"
    by (simp_all add: ex_prices_def col_cells_def col_name_def)
  with cv show ?thesis by blast
qed

text \<open>
  Claim C3, as the code has it. The claim asks for an error on \<open>window = 0\<close> and
  \<open>window = 1\<close>; the function performs no check of its own and pandas accepts both
  windows. On the example table the call returns the log returns and a volatility table of
  NaN cells.
\<close>

theorem small_window_counterexample:
  "calculate_volatility ex_prices 0 = Inr (ex_undefined, ex_returns)
   \<and> calculate_volatility ex_prices 1 = Inr (ex_undefined, ex_returns)"
  by (simp add: calculate_volatility_Inr ex_prices_def ex_undefined_def ex_returns_def
      vol_col_small_window ex_thyao_returns ex_garan_returns)

text \<open>
  Claim C3, amended. For every price table, calculate_volatility with \<open>window = 0\<close> or
  \<open>window = 1\<close> raises nothing: it returns a volatility table with the index and the labels
  of the price table in which every cell is NaN, next to the log-return table.
\<close>

theorem small_window_all_undefined:
  assumes "window = 0 \<or> window = 1"
  shows "\<exists>vol lr. calculate_volatility data window = Inr (vol, lr)
     \<and> index vol = index data
     \<and> length (columns vol) = length (columns data)
     \<and> (\<forall>i<length (columns data).
           col_name vol i = col_name data i
         \<and> col_cells vol i = replicate (length (col_cells data i)) NaN)"
proof -
  from assms have w: "0 \<le> window" "nat window < 2" by auto
  obtain vol lr where cv: "calculate_volatility data window = Inr (vol, lr)"
    using calculate_volatility_Inr [OF w(1), of data] by simp
  have "col_name vol i = col_name data i
      \<and> col_cells vol i = replicate (length (col_cells data i)) NaN"
    if "i < length (columns data)" for i
    using cv_columns(2,4) [OF cv that] vol_col_small_window [OF w(2)] by simp
  with cv cv_shape(2,4) [OF cv] show ?thesis by blast
qed

theorem small_window_all_undefined_witness:
  "\<exists>vol lr. calculate_volatility ex_prices 1 = Inr (vol, lr)
     \<and> index vol = index ex_prices
     \<and> col_name vol 1 = ''GARAN.IS''
     \<and> col_cells vol 1 = [NaN, NaN, NaN, NaN]"
proof -
  have "(1::int) = 0 \<or> (1::int) = 1" by simp
  from small_window_all_undefined [OF this, of ex_prices]
  obtain vol lr where cv: "calculate_volatility ex_prices 1 = Inr (vol, lr)"
    and ix: "index vol = index ex_prices"
    and cs: "\<forall>i<length (columns ex_prices).
           col_name vol i = col_name ex_prices i
         \<and> col_cells vol i = replicate (length (col_cells ex_prices i)) NaN"
    by blast
  have "1 < length (columns ex_prices)" by (simp add: ex_prices_def)
  with cs have "col_name vol 1 = col_name ex_prices 1
         \<and> col_cells vol 1 = replicate (length (col_cells ex_prices 1)) NaN" by blast
  then have "col_name vol 1 = ''GARAN.IS''" "col_cells vol 1 = [NaN, NaN, NaN, NaN]"
    by (simp_all add: ex_prices_def col_name_def col_cells_def numeral_eq_Suc)
  with cv ix show ?thesis by blast
qed

text \<open>
  Claim C8, as the code has it. With 30 days at the constant price 100.0 and
  \<open>window = 21\<close>, the volatility at day 20 is NaN, not 0.0: the window that ends at day 20
  starts at day 0, whose log return is missing, so it holds 20 observations only.
\<close>

theorem constant_prices_day20_counterexample:
  "calculate_volatility ex_const30 21 = Inr (ex_const30_vol, ex_const30_returns)
   \<and> col_cells ex_const30_vol 0 ! 20 = NaN"
proof -
  have r: "replicate 30 (Fin 100) = replicate (Suc 29) (Fin 100)" by simp
  have "vol_col 21 (replicate 30 (Fin 100)) = replicate 21 NaN @ replicate 9 (Fin 0)"
    unfolding r using const_vol [of 100 21 29] by simp
  moreover have "log_return_col (replicate 30 (Fin 100)) = NaN # replicate 29 (Fin 0)"
    unfolding r using const_returns [of 100 29] by simp
  ultimately have "calculate_volatility ex_const30 21 = Inr (ex_const30_vol, ex_const30_returns)"
    by (simp add: calculate_volatility_Inr ex_const30_def ex_const30_vol_def
        ex_const30_returns_def)
  moreover have "col_cells ex_const30_vol 0 ! 20 = NaN"
    by (simp add: ex_const30_vol_def col_cells_def nth_append)
  ultimately show ?thesis by simp
qed

text \<open>
  Claim C8, amended. For a price table of 30 trading days with one ticker at the constant
  price 100.0, calculate_volatility with \<open>window = 21\<close> yields log returns that are missing
  at day 0 and 0.0 for days 1 to 29, and a rolling volatility that is undefined for days 0
  to 20 and exactly 0.0 for days 21 to 29.
\<close>

theorem constant_prices_30_days:
  assumes "length idx = 30"
  shows "calculate_volatility \<lparr>index = idx, columns = [(s, replicate 30 (Fin 100))]\<rparr> 21
     = Inr (\<lparr>index = idx, columns = [(s, replicate 21 NaN @ replicate 9 (Fin 0))]\<rparr>,
            \<lparr>index = idx, columns = [(s, NaN # replicate 29 (Fin 0))]\<rparr>)"
proof -
  have r: "replicate 30 (Fin 100) = replicate (Suc 29) (Fin 100)" by simp
  have "vol_col 21 (replicate 30 (Fin 100)) = replicate 21 NaN @ replicate 9 (Fin 0)"
    unfolding r using const_vol [of 100 21 29] by simp
  moreover have "log_return_col (replicate 30 (Fin 100)) = NaN # replicate 29 (Fin 0)"
    unfolding r using const_returns [of 100 29] by simp
  ultimately show ?thesis
    by (simp add: calculate_volatility_Inr)
qed

theorem constant_prices_30_days_witness:
  "length (index ex_const30) = 30
   \<and> calculate_volatility ex_const30 21
     = Inr (\<lparr>index = index ex_const30,
              columns = [(''THYAO.IS'', replicate 21 NaN @ replicate 9 (Fin 0))]\<rparr>,
            \<lparr>index = index ex_const30,
              columns = [(''THYAO.IS'', NaN # replicate 29 (Fin 0))]\<rparr>)"
proof -
  have l: "length (index ex_const30) = 30" by (simp add: ex_const30_def)
  from constant_prices_30_days [OF l, of "''THYAO.IS''"] l show ?thesis
    by (simp add: ex_const30_def)
qed

text \<open>
  Claim C5, as the code has it. A price table may have no rows (a date range without a
  trading day). Its columns have no missing value, and the log-return table then has no
  valid row either: zero, not one fewer than zero.
\<close>

theorem empty_table_counterexample:
  "calculate_volatility ex_empty 21 = Inr (ex_empty, ex_empty)
   \<and> positive_col (col_cells ex_empty 0)
   \<and> int (valid_rows (col_cells (snd (projr (calculate_volatility ex_empty 21))) 0))
       \<noteq> int (valid_rows (col_cells ex_empty 0)) - 1"
proof -
  have "calculate_volatility ex_empty 21 = Inr (ex_empty, ex_empty)"
    by (simp add: calculate_volatility_Inr ex_empty_def vol_col_def log_return_col_def
        rolling_std_col_def shift1_def)
  then show ?thesis
    by (simp add: ex_empty_def col_cells_def positive_col_def valid_rows_def)
qed

text \<open>
  Claim C5, amended. For every price table and every window for which calculate_volatility
  returns, and every column that has at least one row and no missing (or non-positive)
  price: the log-return column has exactly one valid row fewer than the price column; the
  volatility column is NaN at every row before row \<open>window\<close> (row 0 and the first
  \<open>window - 1\<close> rows that hold a return); it is never infinite, every defined value is
  non-negative, and for \<open>window \<ge> 2\<close> every row from row \<open>window\<close> on is defined.
\<close>

theorem no_missing_prices_tables:
  assumes "calculate_volatility data window = Inr (vol, lr)"
    and "i < length (columns data)"
    and "positive_col (col_cells data i)" and "col_cells data i \<noteq> []"
  shows "valid_rows (col_cells lr i) + 1 = valid_rows (col_cells data i)
    \<and> (\<forall>t<length (col_cells data i).
          (t < nat window \<longrightarrow> col_cells vol i ! t = NaN)
        \<and> col_cells vol i ! t \<noteq> PosInf \<and> col_cells vol i ! t \<noteq> NegInf
        \<and> (\<forall>v. col_cells vol i ! t = Fin v \<longrightarrow> 0 \<le> v)
        \<and> (2 \<le> window \<and> nat window \<le> t \<longrightarrow> (\<exists>v. col_cells vol i ! t = Fin v)))"
proof -
  let ?c = "col_cells data i"
  have lr: "col_cells lr i = log_return_col ?c"
    and vol: "col_cells vol i = vol_col (nat window) ?c"
    using cv_columns(1,2) [OF assms(1,2)] by simp_all
  have rows: "valid_rows (log_return_col ?c) + 1 = valid_rows ?c"
    using assms(3,4) by (rule valid_rows_positive_returns)
  have cells: "(t < nat window \<longrightarrow> vol_col (nat window) ?c ! t = NaN)
        \<and> vol_col (nat window) ?c ! t \<noteq> PosInf \<and> vol_col (nat window) ?c ! t \<noteq> NegInf
        \<and> (\<forall>v. vol_col (nat window) ?c ! t = Fin v \<longrightarrow> 0 \<le> v)
        \<and> (2 \<le> window \<and> nat window \<le> t \<longrightarrow> (\<exists>v. vol_col (nat window) ?c ! t = Fin v))"
    if t: "t < length ?c" for t
  proof -
    have "\<exists>v. vol_col (nat window) ?c ! t = Fin v" if "2 \<le> window" "nat window \<le> t"
    proof -
      from that(1) have "2 \<le> nat window" by simp
      from vol_cell_defined [OF assms(3) this that(2) t] show ?thesis by blast
    qed
    then show ?thesis
      using vol_cell_early [OF t, of "nat window"] vol_cell_not_inf [OF t, of "nat window"]
        vol_cell_nonneg [OF t, of "nat window"]
      by blast
  qed
  show ?thesis unfolding lr vol using rows cells by blast
qed

theorem no_missing_prices_tables_witness:
  "\<exists>vol lr. calculate_volatility ex_prices 2 = Inr (vol, lr)
     \<and> positive_col (col_cells ex_prices 0)
     \<and> valid_rows (col_cells lr 0) + 1 = 4
     \<and> col_cells vol 0 ! 1 = NaN
     \<and> (\<exists>v. col_cells vol 0 ! 2 = Fin v \<and> 0 \<le> v)"
proof -
  obtain vol lr where cv: "calculate_volatility ex_prices 2 = Inr (vol, lr)"
    using calculate_volatility_Inr [of 2 ex_prices] by simp
  have i: "0 < length (columns ex_prices)" by (simp add: ex_prices_def)
  have pos: "positive_col (col_cells ex_prices 0)"
    and ne: "col_cells ex_prices 0 \<noteq> []"
    and rows: "valid_rows (col_cells ex_prices 0) = 4"
    and len: "length (col_cells ex_prices 0) = 4"
    by (simp_all add: ex_prices_def col_cells_def positive_col_def valid_rows_def)
  note th = no_missing_prices_tables [OF cv i pos ne]
  from th rows have r: "valid_rows (col_cells lr 0) + 1 = 4" by simp
  from th len have all: "\<forall>t<4. (t < 2 \<longrightarrow> col_cells vol 0 ! t = NaN)
        \<and> (\<forall>v. col_cells vol 0 ! t = Fin v \<longrightarrow> 0 \<le> v)
        \<and> (2 \<le> t \<longrightarrow> (\<exists>v. col_cells vol 0 ! t = Fin v))"
    by simp
  have "(1::nat) < 4" "(2::nat) < 4" by simp_all
  with all have "col_cells vol 0 ! 1 = NaN"
    and "\<exists>v. col_cells vol 0 ! 2 = Fin v \<and> 0 \<le> v"
    by (simp, blast)
  with cv pos r show ?thesis by blast
qed

text \<open>
  Claim C6, as the code has it. Row 0 of the log-return table is missing, so the
  exponential of the cumulative sum is NaN at row 0, while the price series divided by its
  starting price is 1 there: the first row is not rebuilt.
\<close>

theorem roundtrip_first_row_counterexample:
  "calculate_volatility ex_prices 21 = Inr (ex_undefined, ex_returns)
   \<and> positive_col (col_cells ex_prices 0)
   \<and> map cell_exp (cumsum (col_cells ex_returns 0)) ! 0 = NaN
   \<and> cell_div (col_cells ex_prices 0 ! 0) (col_cells ex_prices 0 ! 0) = Fin 1"
proof -
  have "calculate_volatility ex_prices 21 = Inr (ex_undefined, ex_returns)"
    by (simp add: calculate_volatility_Inr ex_prices_def ex_undefined_def ex_returns_def
        vol_col_large_window ex_thyao_returns ex_garan_returns)
  moreover have "positive_col (col_cells ex_prices 0)"
    and "cell_div (col_cells ex_prices 0 ! 0) (col_cells ex_prices 0 ! 0) = Fin 1"
    by (simp_all add: ex_prices_def col_cells_def positive_col_def)
  moreover have "map cell_exp (cumsum (col_cells ex_returns 0)) ! 0 = NaN"
    by (simp add: ex_returns_def col_cells_def cumsum_def)
  ultimately show ?thesis by simp
qed

text \<open>
  Claim C6, amended. For a column without missing prices, the exponential of the
  cumulative sum of the log returns that calculate_volatility returns is, at every row
  \<open>t \<ge> 1\<close>, the price at \<open>t\<close> divided by the starting price; at row 0 it is NaN.
\<close>

theorem exp_cumsum_roundtrip:
  assumes "calculate_volatility data window = Inr (vol, lr)"
    and "i < length (columns data)"
    and "positive_col (col_cells data i)"
    and "1 \<le> t" and "t < length (col_cells data i)"
  shows "\<exists>p p0. col_cells data i ! t = Fin p \<and> col_cells data i ! 0 = Fin p0 \<and> 0 < p0
     \<and> map cell_exp (cumsum (col_cells lr i)) ! t = Fin (p / p0)
     \<and> map cell_exp (cumsum (col_cells lr i)) ! 0 = NaN"
proof -
  have lr: "col_cells lr i = log_return_col (col_cells data i)"
    using cv_columns(1) [OF assms(1,2)] .
  have "col_cells data i \<noteq> []" using assms(5) by auto
  then have "map cell_exp (cumsum (log_return_col (col_cells data i))) ! 0 = NaN"
    by (rule cumsum_returns_row0)
  with exp_cumsum_positive [OF assms(3,4,5)] show ?thesis
    unfolding lr by blast
qed

theorem exp_cumsum_roundtrip_witness:
  "\<exists>vol lr. calculate_volatility ex_prices 21 = Inr (vol, lr)
     \<and> positive_col (col_cells ex_prices 0)
     \<and> map cell_exp (cumsum (col_cells lr 0)) ! 3 = Fin (8 / 1)"
proof -
  obtain vol lr where cv: "calculate_volatility ex_prices 21 = Inr (vol, lr)"
    using calculate_volatility_Inr [of 21 ex_prices] by simp
  have i: "0 < length (columns ex_prices)" by (simp add: ex_prices_def)
  have pos: "positive_col (col_cells ex_prices 0)"
    and t: "3 < length (col_cells ex_prices 0)"
    and c: "col_cells ex_prices 0 ! 3 = Fin 8" "col_cells ex_prices 0 ! 0 = Fin 1"
    by (simp_all add: ex_prices_def col_cells_def positive_col_def)
  have "(1::nat) \<le> 3" by simp
  from exp_cumsum_roundtrip [OF cv i pos this t] c
  have "map cell_exp (cumsum (col_cells lr 0)) ! 3 = Fin (8 / 1)" by auto
  with cv pos show ?thesis by blast
qed

section \<open>The claim about plot_correlation\<close>



section \<open>Effects of calculate_volatility\<close>

text \<open>
  Claim C9. A call of calculate_volatility on a store leaves the price table it was given
  as it was (index, labels and cells), and every other table that existed before the call
  too: the store only grows by new objects. Nothing is printed, downloaded or drawn. The
  two references it returns are distinct and point to objects created by the call.
\<close>

theorem calculate_volatility_no_side_effects:
  assumes "data < length (objects w)"
    and "calculate_volatility_st data window w = (res, w')"
  shows "deref w' data = deref w data
    \<and> (\<exists>new. objects w' = objects w @ new)
    \<and> emitted w' = emitted w
    \<and> (\<forall>vol lr. res = Inr (vol, lr) \<longrightarrow>
          length (objects w) \<le> vol \<and> length (objects w) \<le> lr \<and> vol \<noteq> lr
        \<and> vol < length (objects w') \<and> lr < length (objects w'))"
proof -
  from assms(2) have res: "res = fst (calculate_volatility_st data window w)"
    and w': "w' = snd (calculate_volatility_st data window w)" by simp_all
  obtain new where new: "objects w' = objects w @ new"
    using calculate_volatility_st_objects [OF assms(1), of window] unfolding w' by blast
  then have "deref w' data = deref w data"
    using assms(1) by (simp add: deref_def nth_append)
  moreover have "emitted w' = emitted w"
    unfolding w' using assms(1) by (rule calculate_volatility_st_emitted)
  moreover have "length (objects w) \<le> vol \<and> length (objects w) \<le> lr \<and> vol \<noteq> lr
        \<and> vol < length (objects w') \<and> lr < length (objects w')"
    if "res = Inr (vol, lr)" for vol lr
    using calculate_volatility_st_refs [OF assms(1), of window vol lr] that
    unfolding res w' by simp
  ultimately show ?thesis using new by blast
qed

theorem calculate_volatility_no_side_effects_witness:
  "1 < length (objects ex_world2)
   \<and> deref (snd (calculate_volatility_st 1 2 ex_world2)) 1 = ex_prices
   \<and> emitted (snd (calculate_volatility_st 1 2 ex_world2)) = [Print ''ready'']"
proof -
  have d: "1 < length (objects ex_world2)" by (simp add: ex_world2_def)
  have "calculate_volatility_st 1 2 ex_world2
      = (fst (calculate_volatility_st 1 2 ex_world2), snd (calculate_volatility_st 1 2 ex_world2))"
    by simp
  from calculate_volatility_no_side_effects [OF d this] d show ?thesis
    by (simp add: ex_world2_def deref_def)
qed

text \<open>
  Claim C10. Two calls of calculate_volatility, in any two stores, on price tables that are
  equal and with the same window, return equal pairs of tables (or raise the same
  exception): the result depends on nothing but the price table and the window.
\<close>

theorem calculate_volatility_deterministic:
  assumes "d1 < length (objects w1)" and "d2 < length (objects w2)"
    and "deref w1 d1 = deref w2 d2"
  shows "returned (calculate_volatility_st d1 window w1)
     = returned (calculate_volatility_st d2 window w2)"
  using assms(3)
  by (simp add: calculate_volatility_st_returned [OF assms(1)]
      calculate_volatility_st_returned [OF assms(2)])

theorem calculate_volatility_deterministic_witness:
  "deref ex_world1 0 = deref ex_world2 1
   \<and> returned (calculate_volatility_st 0 2 ex_world1)
     = returned (calculate_volatility_st 1 2 ex_world2)"
proof -
  have d1: "0 < length (objects ex_world1)" and d2: "1 < length (objects ex_world2)"
    and eq: "deref ex_world1 0 = deref ex_world2 1"
    by (simp_all add: ex_world1_def ex_world2_def deref_def)
  from calculate_volatility_deterministic [OF d1 d2 eq] eq show ?thesis by simp
qed

section \<open>The claim about get_data\<close>




end
